theory Spec2Isabelle
  imports Main
begin

section \<open>Values shown by the viewer\<close>

text \<open>
  The rows of the table are JSON objects. Strings are strings of 8-bit characters; an
  object is the list of its own properties in the order \<^verbatim>\<open>Object.entries\<close>
  enumerates them. A number is a double, and is carried as the text JavaScript prints
  for it (\<^verbatim>\<open>String(n)\<close>: \<^verbatim>\<open>12\<close>, \<^verbatim>\<open>-0.5\<close>, \<^verbatim>\<open>1e+21\<close>), which is also what
  \<^verbatim>\<open>JSON.stringify\<close> emits for every number a parsed JSON payload can hold.
\<close>

datatype json =
    JNull
  | JBool bool
  | JNum string
  | JStr string
  | JArr "json list"
  | JObj "(string \<times> json) list"

type_synonym row = "(string \<times> json) list"

type_synonym timestamp = int

subsection \<open>\<^verbatim>\<open>JSON.stringify\<close>\<close>

definition hex_digit :: "nat \<Rightarrow> char" where
  "hex_digit n = ''0123456789abcdef'' ! (n mod 16)"

definition escape_char :: "char \<Rightarrow> string" where
  "escape_char c =
     (if c = CHR 0x22 then [CHR 0x5C, CHR 0x22]
      else if c = CHR 0x5C then [CHR 0x5C, CHR 0x5C]
      else if c = CHR 0x08 then [CHR 0x5C, CHR ''b'']
      else if c = CHR 0x0C then [CHR 0x5C, CHR ''f'']
      else if c = CHR 0x0A then [CHR 0x5C, CHR ''n'']
      else if c = CHR 0x0D then [CHR 0x5C, CHR ''r'']
      else if c = CHR 0x09 then [CHR 0x5C, CHR ''t'']
      else if (of_char c :: nat) < 32
        then [CHR 0x5C, CHR ''u'', CHR ''0'', CHR ''0'',
              hex_digit (of_char c div 16), hex_digit (of_char c)]
      else [c])"

definition quote_json :: "string \<Rightarrow> string" where
  "quote_json s = CHR 0x22 # concat (map escape_char s) @ [CHR 0x22]"

fun join :: "string \<Rightarrow> string list \<Rightarrow> string" where
  "join sep [] = []"
| "join sep [x] = x"
| "join sep (x # y # ys) = x @ sep @ join sep (y # ys)"

fun JSON_stringify :: "json \<Rightarrow> string" where
  "JSON_stringify JNull = ''null''"
| "JSON_stringify (JBool b) = (if b then ''true'' else ''false'')"
| "JSON_stringify (JNum printed) = printed"
| "JSON_stringify (JStr s) = quote_json s"
| "JSON_stringify (JArr xs) = ''['' @ join '','' (map JSON_stringify xs) @ '']''"
| "JSON_stringify (JObj kvs) =
     ''{'' @ join '','' (map (\<lambda>kv. quote_json (fst kv) @ '':'' @ JSON_stringify (snd kv)) kvs)
       @ ''}''"

subsection \<open>\<^verbatim>\<open>String.prototype.replace\<close> with a string pattern\<close>

text \<open>
  With a string (not a regular expression) as pattern, \<^verbatim>\<open>replace\<close> substitutes
  the first occurrence of the pattern only and copies the rest of the string.
\<close>

fun String_replace :: "string \<Rightarrow> string \<Rightarrow> string \<Rightarrow> string" where
  "String_replace pat rep [] = (if pat = [] then rep else [])"
| "String_replace pat rep (c # cs) =
     (if take (length pat) (c # cs) = pat then rep @ drop (length pat) (c # cs)
      else c # String_replace pat rep cs)"

text \<open>What the claim describes: every occurrence of one character replaced.\<close>

definition replace_every :: "char \<Rightarrow> char \<Rightarrow> string \<Rightarrow> string" where
  "replace_every p r s = map (\<lambda>c. if c = p then r else c) s"

section \<open>The state of \<^verbatim>\<open>SupabaseTableViewer\<close>\<close>

text \<open>
  The five \<^verbatim>\<open>useState\<close> cells. \<open>data\<close> holds whatever \<^verbatim>\<open>setData\<close> was given:
  \<open>None\<close> stands for \<^verbatim>\<open>null\<close>/\<^verbatim>\<open>undefined\<close>, on which \<^verbatim>\<open>data.length\<close> throws.
\<close>

record viewer_state =
  data :: "row list option"
  loading :: bool
  isRefreshing :: bool
  error :: "string option"
  lastUpdated :: "timestamp option"

definition initial_state :: viewer_state where
  "initial_state =
     \<lparr>data = Some [], loading = True, isRefreshing = False, error = None, lastUpdated = None\<rparr>"

subsection \<open>What the awaited query gives back\<close>

datatype fetch_error = FetchError (message: "string option")

datatype response = Response (resp_data: "row list option") (resp_error: "fetch_error option")

datatype outcome = Resolved response | Rejected fetch_error

text \<open>JavaScript's \<^verbatim>\<open>a || b\<close> on an array-or-null and on a string-or-undefined.\<close>

definition or_rows :: "row list option \<Rightarrow> row list \<Rightarrow> row list" where
  "or_rows a b = (case a of None \<Rightarrow> b | Some rows \<Rightarrow> rows)"

definition or_string :: "string option \<Rightarrow> string \<Rightarrow> string" where
  "or_string a b = (case a of None \<Rightarrow> b | Some s \<Rightarrow> if s = [] then b else s)"

definition truthy :: "string option \<Rightarrow> bool" where
  "truthy a = (case a of None \<Rightarrow> False | Some s \<Rightarrow> s \<noteq> [])"

subsection \<open>\<^verbatim>\<open>fetchData\<close>\<close>

text \<open>
  \<^verbatim>\<open>fetchData\<close> runs in two synchronous pieces on the single UI thread: the part
  before the \<^verbatim>\<open>await\<close>, and the continuation that runs when the query settles
  (the rest of the \<^verbatim>\<open>try\<close>, the \<^verbatim>\<open>catch\<close> and the \<^verbatim>\<open>finally\<close>).
\<close>

definition fetchData_begin :: "viewer_state \<Rightarrow> viewer_state" where
  "fetchData_begin s = s\<lparr>isRefreshing := True\<rparr>"

text \<open>The \<^verbatim>\<open>try\<close> block up to the first state update: the rows, or the thrown error.\<close>

definition try_await :: "outcome \<Rightarrow> fetch_error + row list option" where
  "try_await oc =
     (case oc of
        Rejected err \<Rightarrow> Inl err
      | Resolved r \<Rightarrow>
          (case resp_error r of
             Some fetchError \<Rightarrow> Inl fetchError
           | None \<Rightarrow> Inr (resp_data r)))"

definition unknown_error :: string where
  "unknown_error = ''An unknown error occurred during refresh.''"

definition fetchData_settle :: "outcome \<Rightarrow> timestamp \<Rightarrow> viewer_state \<Rightarrow> viewer_state" where
  "fetchData_settle oc now s =
     (let s1 =
        (case try_await oc of
           Inr records \<Rightarrow>
             s\<lparr>data := Some (or_rows records []), lastUpdated := Some now, error := None\<rparr>
         | Inl err \<Rightarrow>
             s\<lparr>error := Some (or_string (message err) unknown_error)\<rparr>)
      in s1\<lparr>loading := False, isRefreshing := False\<rparr>)"

subsection \<open>Histories of one mounted viewer\<close>

datatype event = Start | Settle outcome timestamp

fun step :: "viewer_state \<Rightarrow> event \<Rightarrow> viewer_state" where
  "step s Start = fetchData_begin s"
| "step s (Settle oc now) = fetchData_settle oc now s"

definition run :: "event list \<Rightarrow> viewer_state" where
  "run evs = foldl step initial_state evs"

text \<open>Read off the history alone, independently of the component's state.\<close>

definition succeeded :: "outcome \<Rightarrow> bool" where
  "succeeded oc = (case oc of Resolved (Response d None) \<Rightarrow> True | _ \<Rightarrow> False)"

fun payload :: "outcome \<Rightarrow> row list" where
  "payload (Resolved (Response (Some rows) e)) = rows"
| "payload oc = []"

fun failure_text :: "outcome \<Rightarrow> string option" where
  "failure_text (Rejected (FetchError m)) = m"
| "failure_text (Resolved (Response d (Some (FetchError m)))) = m"
| "failure_text (Resolved (Response d None)) = None"

fun is_settle :: "event \<Rightarrow> bool" where
  "is_settle Start = False"
| "is_settle (Settle oc now) = True"

fun is_success :: "event \<Rightarrow> bool" where
  "is_success Start = False"
| "is_success (Settle oc now) = succeeded oc"

definition completed :: "event list \<Rightarrow> bool" where
  "completed evs = list_ex is_settle evs"

definition last_settle :: "event list \<Rightarrow> event option" where
  "last_settle evs = List.find is_settle (rev evs)"

definition last_success :: "event list \<Rightarrow> event option" where
  "last_success evs = List.find is_success (rev evs)"

definition last_failed :: "event list \<Rightarrow> bool" where
  "last_failed evs =
     (case last_settle evs of Some (Settle oc now) \<Rightarrow> \<not> succeeded oc | _ \<Rightarrow> False)"

definition snapshot_of :: "event list \<Rightarrow> row list" where
  "snapshot_of evs =
     (case last_success evs of Some (Settle oc now) \<Rightarrow> payload oc | _ \<Rightarrow> [])"

definition updated_at :: "event list \<Rightarrow> timestamp option" where
  "updated_at evs =
     (case last_success evs of Some (Settle oc now) \<Rightarrow> Some now | _ \<Rightarrow> None)"

text \<open>Fetches issued and not yet settled.\<close>

fun in_flight :: "event list \<Rightarrow> int" where
  "in_flight [] = 0"
| "in_flight (Start # evs) = in_flight evs + 1"
| "in_flight (Settle oc now # evs) = in_flight evs - 1"

text \<open>A history the browser can produce: only an issued fetch settles.\<close>

fun well_formed_from :: "nat \<Rightarrow> event list \<Rightarrow> bool" where
  "well_formed_from n [] = True"
| "well_formed_from n (Start # evs) = well_formed_from (Suc n) evs"
| "well_formed_from n (Settle oc now # evs) =
     (case n of 0 \<Rightarrow> False | Suc m \<Rightarrow> well_formed_from m evs)"

definition well_formed :: "event list \<Rightarrow> bool" where
  "well_formed evs = well_formed_from 0 evs"

text \<open>No fetch is issued while another one is in flight.\<close>

fun sequential_from :: "bool \<Rightarrow> event list \<Rightarrow> bool" where
  "sequential_from busy [] = True"
| "sequential_from busy (Start # evs) = (\<not> busy \<and> sequential_from True evs)"
| "sequential_from busy (Settle oc now # evs) = (busy \<and> sequential_from False evs)"

definition sequential :: "event list \<Rightarrow> bool" where
  "sequential evs = sequential_from False evs"

text \<open>The text the \<^verbatim>\<open>catch\<close> block stores for the fetch that settled last.\<close>

definition error_text_of :: "event list \<Rightarrow> string" where
  "error_text_of evs =
     (case last_settle evs of
        Some (Settle oc now) \<Rightarrow>
          (case failure_text oc of
             None \<Rightarrow> unknown_error
           | Some m \<Rightarrow> if m = [] then unknown_error else m)
      | _ \<Rightarrow> [])"

text \<open>The latest event is the issue of a fetch.\<close>

definition refresh_flag :: "event list \<Rightarrow> bool" where
  "refresh_flag evs = (case rev evs of Start # _ \<Rightarrow> True | _ \<Rightarrow> False)"

section \<open>Rendering\<close>

datatype labelled = Labelled (label: string) (shown: string)

datatype view =
    InitialLoading string
  | ErrorPanel string string
  | NoRecords string
  | RecordList (heading: string) (spinner: bool) (updated: "timestamp option")
      (banner: "string option") (items: "labelled list list")

datatype js_error = TypeError

definition quoted :: "string \<Rightarrow> string" where
  "quoted t = CHR 0x27 # t @ [CHR 0x27]"

definition render_entry :: "string \<times> json \<Rightarrow> labelled" where
  "render_entry kv = Labelled (String_replace ''_'' '' '' (fst kv) @ '':'') (JSON_stringify (snd kv))"

definition render_record :: "row \<Rightarrow> labelled list" where
  "render_record record = map render_entry record"

text \<open>A \<^verbatim>\<open>null\<close> child renders as nothing.\<close>

definition text_of :: "string option \<Rightarrow> string" where
  "text_of a = (case a of None \<Rightarrow> [] | Some s \<Rightarrow> s)"

definition warning :: "string \<Rightarrow> string" where
  "warning e = ''Failed to refresh data. Showing last known records. Error: '' @ e"

definition loading_message :: "string \<Rightarrow> string" where
  "loading_message tableName = ''Loading data from '' @ quoted tableName @ ''...''"

definition error_message :: "string \<Rightarrow> string" where
  "error_message tableName = ''Could not fetch data from the '' @ quoted tableName @ '' table.''"

definition empty_message :: "string \<Rightarrow> string" where
  "empty_message tableName = ''No records found in the '' @ quoted tableName @ '' table.''"

definition render :: "string \<Rightarrow> viewer_state \<Rightarrow> js_error + view" where
  "render tableName s =
     (if loading s then Inr (InitialLoading (loading_message tableName))
      else
        (case data s of
           None \<Rightarrow> Inl TypeError
         | Some rows \<Rightarrow>
             if truthy (error s) \<and> length rows = 0
               then Inr (ErrorPanel (error_message tableName) (text_of (error s)))
             else if length rows = 0
               then Inr (NoRecords (empty_message tableName))
             else Inr (RecordList (tableName @ '' Records'') (isRefreshing s) (lastUpdated s)
                        (if truthy (error s) then Some (warning (text_of (error s))) else None)
                        (map render_record rows))))"

fun is_loader :: "js_error + view \<Rightarrow> bool" where
  "is_loader (Inr (InitialLoading msg)) = True"
| "is_loader r = False"

fun crashed :: "js_error + view \<Rightarrow> bool" where
  "crashed (Inl e) = True"
| "crashed (Inr v) = False"

fun shows_spinner :: "js_error + view \<Rightarrow> bool" where
  "shows_spinner (Inr (RecordList h sp u b its)) = sp"
| "shows_spinner r = False"

fun shows_list :: "js_error + view \<Rightarrow> bool" where
  "shows_list (Inr (RecordList h sp u b its)) = True"
| "shows_list r = False"

section \<open>The effect: immediate fetch and interval timer\<close>

text \<open>
  The browser side of the effect: a clock in milliseconds, the table of armed interval
  timers, and a log of what the component asked for. A timer remembers the
  \<^verbatim>\<open>fetchData\<close> closure it was given through the table name that closure captured.
\<close>

datatype action = Fetch string | Arm nat int | Cancel nat

record timer =
  timer_id :: nat
  callback_table :: string
  armed_at :: int
  delay :: int

record host =
  clock :: int
  timers :: "timer list"
  next_id :: nat
  log :: "(int \<times> action) list"

definition new_host :: host where
  "new_host = \<lparr>clock = 0, timers = [], next_id = 1, log = []\<rparr>"

definition call_fetchData :: "string \<Rightarrow> host \<Rightarrow> host" where
  "call_fetchData tableName h = h\<lparr>log := log h @ [(clock h, Fetch tableName)]\<rparr>"

text \<open>
  The host keeps the delay of a timer as a 32-bit signed number of milliseconds. A
  requested delay outside \<open>1 .. 2147483647\<close> is not kept: the timer then runs with a
  delay of one millisecond. The log records the delay that was asked for, the timer
  table the delay the host runs the timer with.
\<close>

definition TIMEOUT_MAX :: int where
  "TIMEOUT_MAX = 2147483647"

definition host_delay :: "int \<Rightarrow> int" where
  "host_delay d = (if 1 \<le> d \<and> d \<le> TIMEOUT_MAX then d else 1)"

definition setInterval :: "string \<Rightarrow> int \<Rightarrow> host \<Rightarrow> nat \<times> host" where
  "setInterval tableName d h =
     (next_id h,
      h\<lparr>timers := timers h @
            [\<lparr>timer_id = next_id h, callback_table = tableName, armed_at = clock h,
              delay = host_delay d\<rparr>],
        next_id := Suc (next_id h),
        log := log h @ [(clock h, Arm (next_id h) d)]\<rparr>)"

definition clearInterval :: "nat \<Rightarrow> host \<Rightarrow> host" where
  "clearInterval i h =
     h\<lparr>timers := filter (\<lambda>tm. timer_id tm \<noteq> i) (timers h),
       log := log h @ [(clock h, Cancel i)]\<rparr>"

text \<open>
  The body of \<^verbatim>\<open>useEffect\<close>. Its result is the interval id the returned cleanup
  closes over; \<open>None\<close> when the body returns no cleanup.
\<close>

definition useEffect_body :: "string \<Rightarrow> int \<Rightarrow> host \<Rightarrow> nat option \<times> host" where
  "useEffect_body tableName pollInterval h =
     (let h1 = call_fetchData tableName h in
      if pollInterval \<noteq> 0 \<and> pollInterval > 0 then
        (let (intervalId, h2) = setInterval tableName pollInterval h1
         in (Some intervalId, h2))
      else (None, h1))"

definition cleanup :: "nat option \<Rightarrow> host \<Rightarrow> host" where
  "cleanup c h = (case c of None \<Rightarrow> h | Some intervalId \<Rightarrow> clearInterval intervalId h)"

text \<open>
  The instants after \<open>a\<close> and up to \<open>b\<close> at which an interval timer calls back:
  its arming time plus a positive multiple of the delay the host runs it with.
\<close>

definition fire_times :: "timer \<Rightarrow> int \<Rightarrow> int \<Rightarrow> int list" where
  "fire_times tm a b =
     (if delay tm > 0
      then map (\<lambda>k. armed_at tm + k * delay tm)
             [(a - armed_at tm) div delay tm + 1 .. (b - armed_at tm) div delay tm]
      else [])"

definition elapse :: "nat \<Rightarrow> host \<Rightarrow> host" where
  "elapse d h =
     (let fired =
        concat (map (\<lambda>tm. map (\<lambda>t. (t, Fetch (callback_table tm)))
                             (fire_times tm (clock h) (clock h + int d)))
                    (timers h))
      in h\<lparr>clock := clock h + int d, log := log h @ fired\<rparr>)"

subsection \<open>The life of one component instance\<close>

text \<open>
  React runs the effect body at mount; when a dependency (\<^verbatim>\<open>tableName\<close>,
  \<^verbatim>\<open>pollInterval\<close>, and \<^verbatim>\<open>fetchData\<close>, which is re-created exactly when
  \<^verbatim>\<open>tableName\<close> changes) differs after a render it runs the previous cleanup and
  then the body again; at unmount it runs the last cleanup.
\<close>

record mounted =
  m_tableName :: string
  m_pollInterval :: int
  m_cleanup :: "nat option"

datatype lifecycle = Elapse nat | Props string int | Unmount

definition mount :: "string \<Rightarrow> int \<Rightarrow> host \<Rightarrow> mounted option \<times> host" where
  "mount t p h =
     (let (c, h1) = useEffect_body t p h
      in (Some \<lparr>m_tableName = t, m_pollInterval = p, m_cleanup = c\<rparr>, h1))"

fun react :: "mounted option \<times> host \<Rightarrow> lifecycle \<Rightarrow> mounted option \<times> host" where
  "react (inst, h) (Elapse d) = (inst, elapse d h)"
| "react (None, h) (Props t p) = (None, h)"
| "react (Some m, h) (Props t p) =
     (if t = m_tableName m \<and> p = m_pollInterval m then (Some m, h)
      else mount t p (cleanup (m_cleanup m) h))"
| "react (None, h) Unmount = (None, h)"
| "react (Some m, h) Unmount = (None, cleanup (m_cleanup m) h)"

definition session :: "string \<Rightarrow> int \<Rightarrow> lifecycle list \<Rightarrow> mounted option \<times> host" where
  "session t p evs = foldl react (mount t p new_host) evs"

fun is_fetch :: "int \<times> action \<Rightarrow> bool" where
  "is_fetch (t, Fetch n) = True"
| "is_fetch (t, a) = False"

fun is_arm :: "int \<times> action \<Rightarrow> bool" where
  "is_arm (t, Arm i d) = True"
| "is_arm (t, a) = False"

definition fetches :: "host \<Rightarrow> (int \<times> action) list" where
  "fetches h = filter is_fetch (log h)"

definition fetch_times :: "host \<Rightarrow> int list" where
  "fetch_times h = map fst (fetches h)"

text \<open>The props are the same as at mount in every re-render of the history.\<close>

fun same_props :: "string \<Rightarrow> int \<Rightarrow> lifecycle \<Rightarrow> bool" where
  "same_props t p (Props t' p') = (t' = t \<and> p' = p)"
| "same_props t p e = True"

section \<open>The root shell\<close>

definition myTableName :: string where
  "myTableName = ''tickets''"

definition refreshInterval :: int where
  "refreshInterval = 5000"

datatype app_view = ConfigurationNeeded | Viewer string int

text \<open>
  \<^verbatim>\<open>supabaseUrl\<close> and \<^verbatim>\<open>supabaseAnonKey\<close> are read from the build environment;
  \<open>None\<close> is a variable that is not set.

  The module first builds the client, \<^verbatim>\<open>createClient(supabaseUrl, supabaseAnonKey)\<close>,
  at module scope. The constructor belongs to the client library and may throw; then
  the import of the module fails and \<^verbatim>\<open>App\<close> is never rendered. The constructor is a
  parameter of the model: which arguments it rejects is the library's business.
\<close>

datatype client = Client string string

datatype import_error = Thrown string

type_synonym constructor = "string option \<Rightarrow> string option \<Rightarrow> import_error + client"

definition supabase :: "constructor \<Rightarrow> string option \<Rightarrow> string option \<Rightarrow> import_error + client" where
  "supabase createClient supabaseUrl supabaseAnonKey = createClient supabaseUrl supabaseAnonKey"

text \<open>The component \<^verbatim>\<open>App\<close>, once the module is loaded. It reads the URL only.\<close>

definition App :: "string option \<Rightarrow> string option \<Rightarrow> app_view" where
  "App supabaseUrl supabaseAnonKey =
     (if supabaseUrl = Some ''YOUR_SUPABASE_URL'' then ConfigurationNeeded
      else Viewer myTableName refreshInterval)"

text \<open>What the page shows: nothing when the import fails, else what \<^verbatim>\<open>App\<close> renders.\<close>

definition root :: "constructor \<Rightarrow> string option \<Rightarrow> string option \<Rightarrow> import_error + app_view" where
  "root createClient supabaseUrl supabaseAnonKey =
     (case supabase createClient supabaseUrl supabaseAnonKey of
        Inl e \<Rightarrow> Inl e
      | Inr c \<Rightarrow> Inr (App supabaseUrl supabaseAnonKey))"

definition app_session ::
  "constructor \<Rightarrow> string option \<Rightarrow> string option \<Rightarrow> lifecycle list \<Rightarrow> mounted option \<times> host" where
  "app_session createClient url key evs =
     (case root createClient url key of
        Inl e \<Rightarrow> foldl react (None, new_host) evs
      | Inr ConfigurationNeeded \<Rightarrow> foldl react (None, new_host) evs
      | Inr (Viewer t p) \<Rightarrow> session t p evs)"

text \<open>The placeholders the configuration panel names.\<close>

definition placeholder_url :: string where
  "placeholder_url = ''YOUR_SUPABASE_URL''"

definition placeholder_key :: string where
  "placeholder_key = ''YOUR_SUPABASE_ANON_KEY''"

definition needs_configuration :: "string option \<Rightarrow> string option \<Rightarrow> bool" where
  "needs_configuration url key =
     (url = None \<or> key = None \<or> url = Some placeholder_url \<or> key = Some placeholder_key)"

subsection \<open>The timer table matches the mounted instance\<close>

text \<open>
  An instance whose effect returned a cleanup has exactly one armed timer, the one the
  cleanup cancels, set to the instance's table and to the delay the host keeps for its
  interval; any other instance, and an unmounted component, has none.
\<close>

definition armed_for :: "mounted \<Rightarrow> host \<Rightarrow> bool" where
  "armed_for m h =
     (case m_cleanup m of
        None \<Rightarrow> timers h = []
      | Some i \<Rightarrow>
          (case timers h of
             [tm] \<Rightarrow> timer_id tm = i \<and> callback_table tm = m_tableName m
                      \<and> delay tm = host_delay (m_pollInterval m) \<and> 0 < delay tm
           | _ \<Rightarrow> False))"

definition consistent :: "mounted option \<times> host \<Rightarrow> bool" where
  "consistent c = (case fst c of None \<Rightarrow> timers (snd c) = [] | Some m \<Rightarrow> armed_for m (snd c))"

section \<open>Example inputs\<close>

text \<open>A successful query returning the single row \<^verbatim>\<open>{uuid: "a"}\<close>.\<close>

definition ok_row :: outcome where
  "ok_row = Resolved (Response (Some [[(''uuid'', JStr ''a'')]]) None)"

text \<open>
  Two client constructors to run the root shell with. The first throws on a missing or
  empty URL or key and accepts anything else; the second also throws on a URL that
  does not start with \<^verbatim>\<open>http://\<close> or \<^verbatim>\<open>https://\<close>.
\<close>

definition createClient_required :: constructor where
  "createClient_required url key =
     (if \<not> truthy url then Inl (Thrown ''supabaseUrl is required.'')
      else if \<not> truthy key then Inl (Thrown ''supabaseKey is required.'')
      else Inr (Client (text_of url) (text_of key)))"

definition createClient_checked :: constructor where
  "createClient_checked url key =
     (if \<not> truthy url then Inl (Thrown ''supabaseUrl is required.'')
      else if take 7 (text_of url) \<noteq> ''http://'' \<and> take 8 (text_of url) \<noteq> ''https://''
        then Inl (Thrown ''Invalid supabaseUrl.'')
      else if \<not> truthy key then Inl (Thrown ''supabaseKey is required.'')
      else Inr (Client (text_of url) (text_of key)))"

section \<open>Properties of the fetch state machine\<close>


lemma run_Nil: "run [] = initial_state"
  by (simp add: run_def)

lemma run_snoc: "run (evs @ [e]) = step (run evs) e"
  by (simp add: run_def)

lemma last_settle_snoc:
  "last_settle (evs @ [e]) = (if is_settle e then Some e else last_settle evs)"
  by (simp add: last_settle_def)

lemma last_success_snoc:
  "last_success (evs @ [e]) = (if is_success e then Some e else last_success evs)"
  by (simp add: last_success_def)

lemma completed_snoc: "completed (evs @ [e]) = (completed evs \<or> is_settle e)"
  by (auto simp: completed_def)

lemma settle_success:
  "succeeded oc \<Longrightarrow>
     fetchData_settle oc now s =
       s\<lparr>data := Some (payload oc), lastUpdated := Some now, error := None,
         loading := False, isRefreshing := False\<rparr>"
  by (cases oc rule: payload.cases)
     (auto simp: succeeded_def fetchData_settle_def try_await_def or_rows_def split: option.splits)

lemma settle_failure:
  "\<not> succeeded oc \<Longrightarrow>
     fetchData_settle oc now s =
       s\<lparr>error := Some (or_string (failure_text oc) unknown_error),
         loading := False, isRefreshing := False\<rparr>"
  by (cases oc rule: failure_text.cases)
     (auto simp: succeeded_def fetchData_settle_def try_await_def split: option.splits)

lemma unknown_error_nonempty: "unknown_error \<noteq> []"
  by (simp add: unknown_error_def)

lemma data_run: "data (run evs) = Some (snapshot_of evs)"
proof (induction evs rule: rev_induct)
  case Nil
  show ?case by (simp add: run_Nil initial_state_def snapshot_of_def last_success_def)
next
  case (snoc e evs)
  show ?case
  proof (cases e)
    case Start
    with snoc show ?thesis
      by (simp add: run_snoc fetchData_begin_def snapshot_of_def last_success_snoc)
  next
    case (Settle oc now)
    with snoc show ?thesis
      by (cases "succeeded oc")
         (simp_all add: run_snoc settle_success settle_failure snapshot_of_def last_success_snoc)
  qed
qed

lemma lastUpdated_run: "lastUpdated (run evs) = updated_at evs"
proof (induction evs rule: rev_induct)
  case Nil
  show ?case by (simp add: run_Nil initial_state_def updated_at_def last_success_def)
next
  case (snoc e evs)
  show ?case
  proof (cases e)
    case Start
    with snoc show ?thesis
      by (simp add: run_snoc fetchData_begin_def updated_at_def last_success_snoc)
  next
    case (Settle oc now)
    with snoc show ?thesis
      by (cases "succeeded oc")
         (simp_all add: run_snoc settle_success settle_failure updated_at_def last_success_snoc)
  qed
qed

lemma error_run:
  "error (run evs) = (if last_failed evs then Some (error_text_of evs) else None)"
proof (induction evs rule: rev_induct)
  case Nil
  show ?case
    by (simp add: run_Nil initial_state_def last_failed_def last_settle_def)
next
  case (snoc e evs)
  show ?case
  proof (cases e)
    case Start
    with snoc show ?thesis
      by (simp add: run_snoc fetchData_begin_def last_failed_def error_text_of_def last_settle_snoc)
  next
    case (Settle oc now)
    with snoc show ?thesis
      by (cases "succeeded oc")
         (simp_all add: run_snoc settle_success settle_failure last_failed_def error_text_of_def
            last_settle_snoc or_string_def split: option.splits)
  qed
qed

lemma loading_run: "loading (run evs) = (\<not> completed evs)"
proof (induction evs rule: rev_induct)
  case Nil
  show ?case by (simp add: run_Nil initial_state_def completed_def)
next
  case (snoc e evs)
  show ?case
  proof (cases e)
    case Start
    with snoc show ?thesis
      by (simp add: run_snoc fetchData_begin_def completed_snoc)
  next
    case (Settle oc now)
    with snoc show ?thesis
      by (cases "succeeded oc")
         (simp_all add: run_snoc settle_success settle_failure completed_snoc)
  qed
qed

lemma isRefreshing_run: "isRefreshing (run evs) = refresh_flag evs"
proof (induction evs rule: rev_induct)
  case Nil
  show ?case by (simp add: run_Nil initial_state_def refresh_flag_def)
next
  case (snoc e evs)
  show ?case
  proof (cases e)
    case Start
    then show ?thesis
      by (simp add: run_snoc fetchData_begin_def refresh_flag_def)
  next
    case (Settle oc now)
    then show ?thesis
      by (cases "succeeded oc")
         (simp_all add: run_snoc settle_success settle_failure refresh_flag_def)
  qed
qed

lemma error_text_nonempty: "last_failed evs \<Longrightarrow> error_text_of evs \<noteq> []"
  by (auto simp: last_failed_def error_text_of_def unknown_error_nonempty
      split: option.splits event.splits)

lemma truthy_error_run: "truthy (error (run evs)) = last_failed evs"
  by (simp add: error_run truthy_def error_text_nonempty)

lemma snapshot_updated: "snapshot_of evs \<noteq> [] \<Longrightarrow> updated_at evs \<noteq> None"
  by (auto simp: snapshot_of_def updated_at_def split: option.splits event.splits)

lemma render_run:
  "render t (run evs) =
     Inr (if \<not> completed evs then InitialLoading (loading_message t)
          else if last_failed evs \<and> snapshot_of evs = []
            then ErrorPanel (error_message t) (error_text_of evs)
          else if snapshot_of evs = [] then NoRecords (empty_message t)
          else RecordList (t @ '' Records'') (refresh_flag evs) (updated_at evs)
                 (if last_failed evs then Some (warning (error_text_of evs)) else None)
                 (map render_record (snapshot_of evs)))"
  by (simp add: render_def loading_run data_run truthy_error_run isRefreshing_run
      lastUpdated_run) (simp add: error_run text_of_def)

lemma refresh_flag_last: "refresh_flag evs = (evs \<noteq> [] \<and> last evs = Start)"
  by (cases evs rule: rev_cases) (auto simp: refresh_flag_def split: event.splits)

lemma sequential_from_in_flight:
  "sequential_from busy evs \<Longrightarrow>
     in_flight evs =
       (if (if evs = [] then busy else last evs = Start) then 1 else 0) - (if busy then 1 else 0)"
  by (induction busy evs rule: sequential_from.induct) (auto split: if_splits)

lemma sequential_flag: "sequential evs \<Longrightarrow> refresh_flag evs = (0 < in_flight evs)"
  using sequential_from_in_flight [of False evs]
  by (auto simp: sequential_def refresh_flag_last split: if_splits)


text \<open>
  Claim C1. After a fetch that settles successfully, \<open>data\<close> is exactly the rows
  returned (the empty list when the payload is \<^verbatim>\<open>null\<close>), \<open>lastUpdated\<close> is the
  completion time and \<open>error\<close> is \<^verbatim>\<open>null\<close>; and after any history \<open>data\<close> is
  the payload of the most recent successful fetch (the initial empty list before the
  first success).
\<close>

theorem C1_snapshot_is_latest_success:
  "data (run (evs @ [Settle (Resolved (Response d None)) now])) =
      Some (case d of None \<Rightarrow> [] | Some rows \<Rightarrow> rows)
   \<and> lastUpdated (run (evs @ [Settle (Resolved (Response d None)) now])) = Some now
   \<and> error (run (evs @ [Settle (Resolved (Response d None)) now])) = None
   \<and> data (run evs) = Some (snapshot_of evs)"
proof -
  have ok: "succeeded (Resolved (Response d None))"
    by (simp add: succeeded_def)
  have "payload (Resolved (Response d None)) = (case d of None \<Rightarrow> [] | Some rows \<Rightarrow> rows)"
    by (cases d) simp_all
  with ok show ?thesis
    by (simp add: run_snoc settle_success data_run)
qed

text \<open>Claim C1 at a history with a success followed by a failure.\<close>

theorem C1_witness:
  "data (run [Start, Settle (Resolved (Response (Some [[(''uuid'', JStr ''a'')]]) None)) 7,
              Start, Settle (Rejected (FetchError (Some ''offline''))) 9])
     = Some [[(''uuid'', JStr ''a'')]]"
  using C1_snapshot_is_latest_success
    [of "[Start, Settle (Resolved (Response (Some [[(''uuid'', JStr ''a'')]]) None)) 7,
          Start, Settle (Rejected (FetchError (Some ''offline''))) 9]" None 0]
  by (simp add: snapshot_of_def last_success_def succeeded_def)

text \<open>
  Claim C2, amended. A fetch that fails stores the failure's message in \<open>error\<close> when
  the message is present and not empty, and the fixed text \<open>unknown_error\<close> otherwise;
  it leaves \<open>data\<close> and \<open>lastUpdated\<close> as they were. A fetch that succeeds replaces
  \<open>data\<close> whole. Either way \<open>isRefreshing\<close> is cleared.
\<close>

theorem C2_failed_fetch_keeps_snapshot:
  "(\<not> succeeded oc \<longrightarrow>
      error (fetchData_settle oc now s) =
        Some (case failure_text oc of
                None \<Rightarrow> unknown_error
              | Some m \<Rightarrow> if m = [] then unknown_error else m)
      \<and> data (fetchData_settle oc now s) = data s
      \<and> lastUpdated (fetchData_settle oc now s) = lastUpdated s)
   \<and> (succeeded oc \<longrightarrow> data (fetchData_settle oc now s) = Some (payload oc))
   \<and> isRefreshing (fetchData_settle oc now s) = False"
  by (cases "succeeded oc")
     (simp_all add: settle_success settle_failure or_string_def split: option.splits)

text \<open>Claim C2 at a failure with the message \<open>offline\<close> after one successful fetch.\<close>

theorem C2_witness:
  "error (fetchData_settle (Rejected (FetchError (Some ''offline''))) 9
            (run [Start, Settle (Resolved (Response (Some [[(''uuid'', JStr ''a'')]]) None)) 7, Start]))
     = Some ''offline''
   \<and> data (fetchData_settle (Rejected (FetchError (Some ''offline''))) 9
            (run [Start, Settle (Resolved (Response (Some [[(''uuid'', JStr ''a'')]]) None)) 7, Start]))
     = Some [[(''uuid'', JStr ''a'')]]"
  using C2_failed_fetch_keeps_snapshot
    [of "Rejected (FetchError (Some ''offline''))" 9
        "run [Start, Settle (Resolved (Response (Some [[(''uuid'', JStr ''a'')]]) None)) 7, Start]"]
  by (simp add: succeeded_def data_run snapshot_of_def last_success_def)

text \<open>
  Claim C2 as stated fails for a failure whose message is the empty string: \<open>error\<close>
  becomes the fallback text, not the message.
\<close>

theorem C2_empty_message_counterexample:
  "\<not> succeeded (Rejected (FetchError (Some [])))
   \<and> message (FetchError (Some [])) = Some []
   \<and> error (fetchData_settle (Rejected (FetchError (Some []))) 0 initial_state)
       \<noteq> message (FetchError (Some []))"
  by (simp add: succeeded_def fetchData_settle_def try_await_def or_string_def unknown_error_def)

text \<open>
  Claim C3. After any history, \<open>error\<close> is set if and only if the fetch that settled
  last failed; issuing a fetch leaves \<open>error\<close> as it is, and the only event that
  clears a set \<open>error\<close> is the settling of a successful fetch.
\<close>

theorem C3_error_iff_last_fetch_failed:
  "(error (run evs) \<noteq> None) = last_failed evs
   \<and> error (run (evs @ [Start])) = error (run evs)
   \<and> (error (run evs) \<noteq> None \<and> error (run (evs @ [e])) = None \<longrightarrow> is_success e)"
proof -
  have "error (run evs) \<noteq> None \<and> error (run (evs @ [e])) = None \<longrightarrow> is_success e"
  proof (cases e)
    case Start
    then show ?thesis by (auto simp: run_snoc fetchData_begin_def)
  next
    case (Settle oc now)
    then show ?thesis
      by (cases "succeeded oc") (auto simp: run_snoc settle_failure)
  qed
  then show ?thesis
    by (simp add: error_run run_snoc fetchData_begin_def)
qed

text \<open>Claim C3 at a failure followed by the issue of a new fetch.\<close>

theorem C3_witness:
  "error (run [Start, Settle (Rejected (FetchError (Some ''offline''))) 9, Start]) \<noteq> None"
  using C3_error_iff_last_fetch_failed
    [of "[Start, Settle (Rejected (FetchError (Some ''offline''))) 9, Start]" Start]
  by (simp add: last_failed_def last_settle_def succeeded_def)

text \<open>
  Claim C4. The full-page loader, whose message carries the table name, is rendered if
  and only if no fetch has settled since mount.
\<close>

theorem C4_loader_iff_nothing_completed:
  "is_loader (render t (run evs)) = (\<not> completed evs)
   \<and> (\<not> completed evs \<longrightarrow>
        render t (run evs) =
          Inr (InitialLoading (''Loading data from '' @ [CHR 0x27] @ t @ [CHR 0x27] @ ''...'')))"
  by (simp add: render_run loading_message_def quoted_def)

text \<open>Claim C4 before and after the first fetch settles.\<close>

theorem C4_witness:
  "render ''tickets'' (run [Start]) =
     Inr (InitialLoading (''Loading data from '' @ [CHR 0x27] @ ''tickets'' @ [CHR 0x27] @ ''...''))
   \<and> \<not> is_loader (render ''tickets'' (run [Start, Settle (Rejected (FetchError None)) 3]))"
  using C4_loader_iff_nothing_completed [of "''tickets''" "[Start]"]
    C4_loader_iff_nothing_completed [of "''tickets''" "[Start, Settle (Rejected (FetchError None)) 3]"]
  by (simp add: completed_def)

text \<open>
  Claim C5, amended. Once a fetch has settled: with \<open>error\<close> set and no rows the error
  panel is rendered; with no rows and no error the empty-state message; otherwise the
  record list, with the spinner exactly when \<open>isRefreshing\<close> is set (the latest event
  is the issue of a fetch), the time of the most recent success, and the warning banner
  exactly when \<open>error\<close> is set. When fetches do not overlap, \<open>isRefreshing\<close> is set
  exactly when a fetch is in flight.
\<close>

theorem C5_render_selection:
  assumes "completed evs"
  shows "render t (run evs) =
           Inr (if error (run evs) \<noteq> None \<and> data (run evs) = Some []
                  then ErrorPanel (error_message t) (text_of (error (run evs)))
                else if data (run evs) = Some [] then NoRecords (empty_message t)
                else RecordList (t @ '' Records'') (isRefreshing (run evs)) (updated_at evs)
                       (map_option warning (error (run evs)))
                       (map render_record (snapshot_of evs)))
         \<and> (data (run evs) \<noteq> Some [] \<longrightarrow> updated_at evs \<noteq> None)
         \<and> isRefreshing (run evs) = refresh_flag evs
         \<and> (sequential evs \<longrightarrow> isRefreshing (run evs) = (0 < in_flight evs))"
  using assms
  by (simp add: render_run data_run error_run isRefreshing_run text_of_def snapshot_updated
      sequential_flag)

text \<open>Claim C5 at a stale list: a success, a failure, and a third fetch in flight.\<close>

theorem C5_witness:
  "render ''tickets'' (run [Start, Settle ok_row 7, Start, Settle (Rejected (FetchError (Some ''offline''))) 9, Start])
     = Inr (RecordList ''tickets Records'' True (Some 7)
             (Some ''Failed to refresh data. Showing last known records. Error: offline'')
             [[Labelled ''uuid:'' [CHR 0x22, CHR ''a'', CHR 0x22]]])"
  using C5_render_selection
    [of "[Start, Settle ok_row 7, Start, Settle (Rejected (FetchError (Some ''offline''))) 9, Start]"
        "''tickets''"]
  by (simp add: completed_def run_def ok_row_def fetchData_begin_def fetchData_settle_def
      try_await_def or_rows_def or_string_def initial_state_def updated_at_def last_success_def
      snapshot_of_def succeeded_def warning_def render_record_def render_entry_def quote_json_def
      escape_char_def)

text \<open>
  Claim C5 as stated fails when fetches overlap: two fetches are issued, the first one
  settles, and the list is rendered without the spinner although a fetch is in flight.
\<close>

theorem C5_overlap_counterexample:
  "well_formed [Start, Start, Settle ok_row 7]
   \<and> completed [Start, Start, Settle ok_row 7]
   \<and> 0 < in_flight [Start, Start, Settle ok_row 7]
   \<and> shows_list (render ''tickets'' (run [Start, Start, Settle ok_row 7]))
   \<and> \<not> shows_spinner (render ''tickets'' (run [Start, Start, Settle ok_row 7]))"
  by (simp add: well_formed_def completed_def render_def run_def ok_row_def fetchData_begin_def
      fetchData_settle_def try_await_def or_rows_def initial_state_def truthy_def)

text \<open>
  Claim C10. \<open>data\<close> starts as the empty list and is never \<^verbatim>\<open>null\<close> after any
  history, so rendering never throws; a successful fetch with a \<^verbatim>\<open>null\<close> payload
  stores the empty list and the empty-state message is rendered.
\<close>

theorem C10_snapshot_never_null:
  "data initial_state = Some []
   \<and> data (run evs) \<noteq> None
   \<and> \<not> crashed (render t (run evs))
   \<and> data (fetchData_settle (Resolved (Response None None)) now s) = Some []
   \<and> render t (run (evs @ [Settle (Resolved (Response None None)) now]))
       = Inr (NoRecords (empty_message t))"
proof -
  have ok: "succeeded (Resolved (Response None None))"
    by (simp add: succeeded_def)
  have "snapshot_of (evs @ [Settle (Resolved (Response None None)) now]) = []"
    by (simp add: snapshot_of_def last_success_snoc ok)
  moreover have "\<not> last_failed (evs @ [Settle (Resolved (Response None None)) now])"
    by (simp add: last_failed_def last_settle_snoc ok)
  ultimately show ?thesis
    by (simp add: render_run data_run completed_snoc initial_state_def settle_success ok)
qed

text \<open>Claim C10 at a first fetch that succeeds with a \<^verbatim>\<open>null\<close> payload.\<close>

theorem C10_witness:
  "render ''tickets'' (run [Start, Settle (Resolved (Response None None)) 4])
     = Inr (NoRecords (''No records found in the '' @ [CHR 0x27] @ ''tickets'' @ [CHR 0x27] @ '' table.''))"
  using C10_snapshot_never_null [of "[Start]" "''tickets''" 4]
  by (simp add: empty_message_def quoted_def)

text \<open>The model does distinguish the crash: a \<^verbatim>\<open>null\<close> in \<open>data\<close> would throw.\<close>

lemma render_null_data_crashes:
  "render t (s\<lparr>loading := False, data := None\<rparr>) = Inl TypeError"
  by (simp add: render_def)

section \<open>Properties of the effect and its timer\<close>

lemma session_snoc: "session t p (evs @ [e]) = react (session t p evs) e"
  by (simp add: session_def)

lemma session_append: "session t p (evs @ evs') = foldl react (session t p evs) evs'"
  by (simp add: session_def)

lemma elapse_no_timers:
  "timers h = [] \<Longrightarrow> elapse d h = h\<lparr>clock := clock h + int d\<rparr>"
  by (simp add: elapse_def)

lemma timers_elapse: "timers (elapse d h) = timers h"
  by (simp add: elapse_def Let_def)

lemma le_div_iff_mult_le:
  fixes p k x :: int
  assumes "0 < p"
  shows "(k \<le> x div p) = (k * p \<le> x)"
proof
  assume "k \<le> x div p"
  with assms have "k * p \<le> (x div p) * p"
    by (simp add: mult_right_mono)
  also have "\<dots> = x - x mod p"
    by (simp add: minus_mod_eq_div_mult)
  also have "\<dots> \<le> x"
    using assms by simp
  finally show "k * p \<le> x" .
next
  assume "k * p \<le> x"
  from zdiv_mono1 [OF this assms] assms show "k \<le> x div p"
    by simp
qed

lemma fire_window:
  fixes p k a b t0 :: int
  assumes "0 < p"
  shows "((a - t0) div p + 1 \<le> k \<and> k \<le> (b - t0) div p) = (a < t0 + k * p \<and> t0 + k * p \<le> b)"
proof -
  have "(k \<le> (b - t0) div p) = (t0 + k * p \<le> b)"
    using le_div_iff_mult_le [OF assms, of k "b - t0"] by linarith
  moreover have "((a - t0) div p + 1 \<le> k) = (a < t0 + k * p)"
    using le_div_iff_mult_le [OF assms, of k "a - t0"] by linarith
  ultimately show ?thesis by simp
qed

text \<open>
  An armed timer calls back at exactly the instants of the window that lie a whole
  number of delays from its arming time.
\<close>

lemma fire_times_iff:
  assumes "0 < delay tm"
  shows "(t \<in> set (fire_times tm a b)) =
           (a < t \<and> t \<le> b \<and> (\<exists>k. t = armed_at tm + k * delay tm))"
proof -
  have "(t \<in> set (fire_times tm a b)) =
          (\<exists>k. ((a - armed_at tm) div delay tm + 1 \<le> k \<and> k \<le> (b - armed_at tm) div delay tm)
               \<and> t = armed_at tm + k * delay tm)"
    using assms by (auto simp: fire_times_def)
  also have "\<dots> = (\<exists>k. (a < armed_at tm + k * delay tm \<and> armed_at tm + k * delay tm \<le> b)
               \<and> t = armed_at tm + k * delay tm)"
    by (simp only: fire_window [OF assms])
  also have "\<dots> = (a < t \<and> t \<le> b \<and> (\<exists>k. t = armed_at tm + k * delay tm))"
    by blast
  finally show ?thesis .
qed

lemma armed_for_elapse: "armed_for m (elapse d h) = armed_for m h"
  by (simp add: armed_for_def timers_elapse split: option.splits)

lemma mount_nonpositive:
  "p \<le> 0 \<Longrightarrow>
     mount t p h =
       (Some \<lparr>m_tableName = t, m_pollInterval = p, m_cleanup = None\<rparr>,
        h\<lparr>log := log h @ [(clock h, Fetch t)]\<rparr>)"
  by (simp add: mount_def useEffect_body_def call_fetchData_def)

lemma host_delay_positive: "0 < host_delay d"
  by (simp add: host_delay_def)

lemma host_delay_in_range: "0 < d \<Longrightarrow> d \<le> 2147483647 \<Longrightarrow> host_delay d = d"
  by (simp add: host_delay_def TIMEOUT_MAX_def)

lemma mount_positive:
  "0 < p \<Longrightarrow>
     mount t p h =
       (Some \<lparr>m_tableName = t, m_pollInterval = p, m_cleanup = Some (next_id h)\<rparr>,
        h\<lparr>timers := timers h @
              [\<lparr>timer_id = next_id h, callback_table = t, armed_at = clock h,
                delay = host_delay p\<rparr>],
          next_id := Suc (next_id h),
          log := log h @ [(clock h, Fetch t), (clock h, Arm (next_id h) p)]\<rparr>)"
  by (simp add: mount_def useEffect_body_def call_fetchData_def setInterval_def)

lemma mount_consistent: "timers h = [] \<Longrightarrow> consistent (mount t p h)"
  by (cases "0 < p")
     (simp_all add: mount_nonpositive mount_positive consistent_def armed_for_def
        host_delay_positive)

lemma cleanup_clears: "armed_for m h \<Longrightarrow> timers (cleanup (m_cleanup m) h) = []"
  by (auto simp: armed_for_def cleanup_def clearInterval_def split: option.splits list.splits)

lemma react_consistent: "consistent c \<Longrightarrow> consistent (react c e)"
proof (cases c)
  case (Pair inst h)
  assume c: "consistent c"
  show ?thesis
  proof (cases inst)
    case None
    with Pair c show ?thesis
      by (cases e) (simp_all add: consistent_def timers_elapse)
  next
    case (Some m)
    with Pair c have a: "armed_for m h"
      by (simp add: consistent_def)
    show ?thesis
    proof (cases e)
      case (Elapse d)
      with Pair Some a show ?thesis
        by (simp add: consistent_def armed_for_elapse)
    next
      case (Props t' p')
      with Pair Some a show ?thesis
        by (simp add: mount_consistent cleanup_clears) (simp add: consistent_def)
    next
      case Unmount
      with Pair Some a show ?thesis
        by (simp add: consistent_def cleanup_clears)
    qed
  qed
qed

lemma session_consistent: "consistent (session t p evs)"
proof (induction evs rule: rev_induct)
  case Nil
  show ?case by (simp add: session_def mount_consistent new_host_def)
next
  case (snoc e evs)
  then show ?case by (simp add: session_snoc react_consistent)
qed

lemma consistent_timers: "consistent c \<Longrightarrow> length (timers (snd c)) \<le> 1"
  by (auto simp: consistent_def armed_for_def split: option.splits list.splits)

lemma unmounted_stays:
  "timers h = [] \<Longrightarrow>
     fst (foldl react (None, h) evs) = None
     \<and> timers (snd (foldl react (None, h) evs)) = []
     \<and> log (snd (foldl react (None, h) evs)) = log h"
proof (induction evs arbitrary: h)
  case Nil
  then show ?case by simp
next
  case (Cons e evs)
  show ?case
  proof (cases e)
    case (Elapse d)
    have "timers (h\<lparr>clock := clock h + int d\<rparr>) = []"
      using Cons.prems by simp
    from Cons.IH [OF this] Elapse Cons.prems show ?thesis
      by (simp add: elapse_no_timers)
  next
    case (Props t' p')
    with Cons show ?thesis by simp
  next
    case Unmount
    with Cons show ?thesis by simp
  qed
qed

lemma session_unmount:
  "fst (session t p (evs @ [Unmount])) = None \<and> timers (snd (session t p (evs @ [Unmount]))) = []"
proof (cases "session t p evs")
  case (Pair inst h)
  with session_consistent [of t p evs] show ?thesis
    by (cases inst) (simp_all add: session_snoc consistent_def cleanup_clears)
qed

lemma fetches_after_unmount:
  "fetches (snd (session t p (evs @ Unmount # evs'))) = fetches (snd (session t p (evs @ [Unmount])))"
proof -
  obtain h where h: "session t p (evs @ [Unmount]) = (None, h)" and t0: "timers h = []"
    using session_unmount [of t p evs] by (cases "session t p (evs @ [Unmount])") auto
  have "session t p (evs @ Unmount # evs') = foldl react (None, h) evs'"
    using session_append [of t p "evs @ [Unmount]" evs'] h by simp
  with unmounted_stays [OF t0, of evs'] h show ?thesis
    by (simp add: fetches_def)
qed

lemma idle_session:
  assumes "p \<le> 0" and "list_all (same_props t p) evs"
  shows "log (snd (session t p evs)) = [(0, Fetch t)]
         \<and> timers (snd (session t p evs)) = []
         \<and> (fst (session t p evs) = None
            \<or> fst (session t p evs) = Some \<lparr>m_tableName = t, m_pollInterval = p, m_cleanup = None\<rparr>)"
  using assms(2)
proof (induction evs rule: rev_induct)
  case Nil
  show ?case using assms(1) by (simp add: session_def mount_nonpositive new_host_def)
next
  case (snoc e evs)
  then have ih: "log (snd (session t p evs)) = [(0, Fetch t)]"
      "timers (snd (session t p evs)) = []"
      "fst (session t p evs) = None
       \<or> fst (session t p evs) = Some \<lparr>m_tableName = t, m_pollInterval = p, m_cleanup = None\<rparr>"
    and e: "same_props t p e"
    by simp_all
  obtain inst h where s: "session t p evs = (inst, h)"
    by (cases "session t p evs")
  with ih e show ?case
    by (cases e) (auto simp: session_snoc elapse_no_timers cleanup_def)
qed

lemma first_period:
  "0 < p \<Longrightarrow> p \<le> 2147483647 \<Longrightarrow>
     fetch_times (snd (session t p [Elapse d])) = 0 # map (\<lambda>k. k * p) [1 .. int d div p]"
  by (simp add: session_def mount_positive new_host_def elapse_def fetch_times_def fetches_def
      fire_times_def comp_def host_delay_in_range)



lemma props_change_log:
  assumes "session t p evs = (Some m, h)" and "t' \<noteq> m_tableName m \<or> p' \<noteq> m_pollInterval m"
  shows "log (snd (session t p (evs @ [Props t' p']))) =
           log h @ (case m_cleanup m of None \<Rightarrow> [] | Some i \<Rightarrow> [(clock h, Cancel i)])
             @ [(clock h, Fetch t')]
             @ (if 0 < p' then [(clock h, Arm (next_id h) p')] else [])"
proof (cases "0 < p'")
  case True
  with assms show ?thesis
    by (auto simp: session_snoc mount_positive cleanup_def clearInterval_def split: option.splits)
next
  case False
  then have "p' \<le> 0" by simp
  with assms show ?thesis
    by (auto simp: session_snoc mount_nonpositive cleanup_def clearInterval_def split: option.splits)
qed

text \<open>
  Claim C8, amended. With an interval of zero or less, mounting fetches exactly once and
  arms no timer, and no further fetch is made however much time passes while the props
  stay the same. With a positive interval the effect fetches and then asks for one
  interval timer with that delay. For an interval of at most 2147483647 ms the host
  runs the timer at that delay, and it fetches again at every multiple of the interval.
\<close>

theorem C8_timer_only_for_positive_interval:
  "(p \<le> 0 \<and> list_all (same_props t p) evs \<longrightarrow>
      fetches (snd (session t p evs)) = [(0, Fetch t)]
      \<and> \<not> list_ex is_arm (log (snd (session t p evs)))
      \<and> timers (snd (session t p evs)) = [])
   \<and> (0 < p \<longrightarrow>
        log (snd (mount t p new_host)) = [(0, Fetch t), (0, Arm 1 p)]
        \<and> length (timers (snd (mount t p new_host))) = 1)
   \<and> (0 < p \<and> p \<le> 2147483647 \<longrightarrow>
        timers (snd (mount t p new_host))
            = [\<lparr>timer_id = 1, callback_table = t, armed_at = 0, delay = p\<rparr>]
        \<and> fetch_times (snd (session t p [Elapse d])) = 0 # map (\<lambda>k. k * p) [1 .. int d div p])"
proof -
  have "fetches (snd (session t p evs)) = [(0, Fetch t)]
        \<and> \<not> list_ex is_arm (log (snd (session t p evs)))
        \<and> timers (snd (session t p evs)) = []"
    if "p \<le> 0" and "list_all (same_props t p) evs"
    using idle_session [OF that] by (simp add: fetches_def)
  moreover have "log (snd (mount t p new_host)) = [(0, Fetch t), (0, Arm 1 p)]
        \<and> length (timers (snd (mount t p new_host))) = 1"
    if "0 < p"
    using that by (simp add: mount_positive new_host_def)
  moreover have "timers (snd (mount t p new_host))
            = [\<lparr>timer_id = 1, callback_table = t, armed_at = 0, delay = p\<rparr>]"
    if "0 < p" and "p \<le> 2147483647"
    using that by (simp add: mount_positive new_host_def host_delay_in_range)
  ultimately show ?thesis
    using first_period [of p t d] by blast
qed

text \<open>Claim C8 at the interval 0, and at 5000 over 12.5 seconds.\<close>

theorem C8_witness:
  "fetches (snd (session ''tickets'' 0 [Elapse 60000, Props ''tickets'' 0, Elapse 60000]))
     = [(0, Fetch ''tickets'')]
   \<and> log (snd (mount ''tickets'' 5000 new_host)) = [(0, Fetch ''tickets''), (0, Arm 1 5000)]
   \<and> fetch_times (snd (session ''tickets'' 5000 [Elapse 12500])) = [0, 5000, 10000]"
  using C8_timer_only_for_positive_interval
      [of 0 "''tickets''" "[Elapse 60000, Props ''tickets'' 0, Elapse 60000]"]
    C8_timer_only_for_positive_interval [of 5000 "''tickets''" _ 12500]
  by (simp add: upto_rec1)

text \<open>
  Claim C8 as stated fails for an interval beyond the host's 32-bit delay: with
  2147483648 ms the timer does not run at that period, and fetches are made within the
  first 60 ms, where a timer of that period gives none before 2147483648 ms.
\<close>

theorem C8_overflow_counterexample:
  "(0::int) < 2147483648
   \<and> map delay (timers (snd (mount ''tickets'' 2147483648 new_host))) \<noteq> [2147483648]
   \<and> 0 # map (\<lambda>k. k * 2147483648) [1 .. int 60 div 2147483648] = [0]
   \<and> fetch_times (snd (session ''tickets'' 2147483648 [Elapse 60])) \<noteq> [0]"
  by (simp add: session_def mount_positive new_host_def elapse_def fetch_times_def fetches_def
      fire_times_def host_delay_def TIMEOUT_MAX_def upto_rec1)

text \<open>
  Claim C9. Unmounting leaves no timer armed and no fetch is made afterwards; a change
  of table or interval cancels the armed timer before the new fetch and the new timer;
  at most one timer is armed at any time, the one of the current props. With the
  interval 5000 and the unmount at 1000 ms the only fetch ever made is the one at mount.
\<close>

theorem C9_cleanup_cancels_timer:
  "timers (snd (session t p (evs @ [Unmount]))) = []
   \<and> fetches (snd (session t p (evs @ Unmount # evs')))
       = fetches (snd (session t p (evs @ [Unmount])))
   \<and> length (timers (snd (session t p evs))) \<le> 1
   \<and> (session t p evs = (Some m, h) \<and> (t' \<noteq> m_tableName m \<or> p' \<noteq> m_pollInterval m) \<longrightarrow>
        log (snd (session t p (evs @ [Props t' p']))) =
          log h @ (case m_cleanup m of None \<Rightarrow> [] | Some i \<Rightarrow> [(clock h, Cancel i)])
            @ [(clock h, Fetch t')]
            @ (if 0 < p' then [(clock h, Arm (next_id h) p')] else []))
   \<and> consistent (session t p evs)
   \<and> fetch_times (snd (session ''tickets'' 5000 (Elapse 1000 # Unmount # evs'))) = [0]"
proof -
  have "session ''tickets'' 5000 [Elapse 1000, Unmount] =
          (None, \<lparr>clock = 1000, timers = [], next_id = 2,
                  log = [(0, Fetch ''tickets''), (0, Arm 1 5000), (1000, Cancel 1)]\<rparr>)"
    by (simp add: session_def mount_positive new_host_def elapse_def fire_times_def cleanup_def
        clearInterval_def host_delay_def TIMEOUT_MAX_def)
  with fetches_after_unmount [of "''tickets''" 5000 "[Elapse 1000]" evs']
  have "fetch_times (snd (session ''tickets'' 5000 (Elapse 1000 # Unmount # evs'))) = [0]"
    by (simp add: fetch_times_def fetches_def)
  then show ?thesis
    using session_unmount [of t p evs] fetches_after_unmount [of t p evs evs']
      consistent_timers [OF session_consistent [of t p evs]]
      session_consistent [of t p evs] props_change_log [of t p evs m h t' p']
    by blast
qed

text \<open>Claim C9 at an unmount after one second, and at a change of interval.\<close>

theorem C9_witness:
  "fetch_times (snd (session ''tickets'' 5000 [Elapse 1000, Unmount, Elapse 4000, Elapse 60000])) = [0]
   \<and> log (snd (session ''tickets'' 5000 [Elapse 1000, Props ''tickets'' 2000]))
       = [(0, Fetch ''tickets''), (0, Arm 1 5000), (1000, Cancel 1),
          (1000, Fetch ''tickets''), (1000, Arm 2 2000)]"
  using C9_cleanup_cancels_timer
    [of "''tickets''" 5000 "[Elapse 1000]" "[Elapse 4000, Elapse 60000]"
        "\<lparr>m_tableName = ''tickets'', m_pollInterval = 5000, m_cleanup = Some 1\<rparr>"
        "\<lparr>clock = 1000, timers = [\<lparr>timer_id = 1, callback_table = ''tickets'', armed_at = 0, delay = 5000\<rparr>],
          next_id = 2, log = [(0, Fetch ''tickets''), (0, Arm 1 5000)]\<rparr>"
        "''tickets''" 2000]
  by (simp add: session_def mount_positive new_host_def elapse_def fire_times_def cleanup_def
      clearInterval_def fetch_times_def fetches_def host_delay_def TIMEOUT_MAX_def)

section \<open>Properties of the field labels\<close>

lemma replace_absent: "p \<notin> set s \<Longrightarrow> replace_every p r s = s"
  by (induction s) (auto simp: replace_every_def)

lemma replace_at_most_one:
  "count_list s p \<le> 1 \<Longrightarrow> String_replace [p] [r] s = replace_every p r s"
proof (induction s)
  case Nil
  show ?case by (simp add: replace_every_def)
next
  case (Cons c cs)
  show ?case
  proof (cases "c = p")
    case True
    with Cons.prems have "p \<notin> set cs"
      by (simp add: count_list_0_iff)
    from replace_absent [OF this, of r] True show ?thesis
      by (simp add: replace_every_def)
  next
    case False
    with Cons show ?thesis
      by (simp add: replace_every_def)
  qed
qed

text \<open>For a key with at most one underscore the label is the key with spaces for underscores.\<close>

lemma render_entry_single_underscore:
  "count_list k CHR ''_'' \<le> 1 \<Longrightarrow>
     render_entry (k, v) = Labelled (replace_every CHR ''_'' CHR '' '' k @ '':'') (JSON_stringify v)"
  using replace_at_most_one [of k "CHR ''_''" "CHR '' ''"]
  by (simp add: render_entry_def)

text \<open>
  Claim C7 at a key with two underscores: the label rendered for the key
  \<open>first_name_en\<close> keeps the second underscore, where the claim asks for every
  underscore to become a space. The value is shown as \<^verbatim>\<open>JSON.stringify\<close> gives it.
\<close>

theorem C7_only_first_underscore_replaced:
  "render_record [(''first_name_en'', JStr ''Ada'')]
     = [Labelled ''first name_en:'' [CHR 0x22, CHR ''A'', CHR ''d'', CHR ''a'', CHR 0x22]]
   \<and> replace_every CHR ''_'' CHR '' '' ''first_name_en'' = ''first name en''"
  by (simp add: render_record_def render_entry_def replace_every_def quote_json_def escape_char_def)

section \<open>Properties of the root shell\<close>

text \<open>
  Claim C6, amended. On every pair of URL and key for which the client constructor at
  module scope returns, \<^verbatim>\<open>App\<close> renders the configuration panel exactly when the URL
  equals the placeholder \<^verbatim>\<open>YOUR_SUPABASE_URL\<close>; then no viewer is mounted and no fetch
  ever occurs. On every other such pair, whatever the access key, it mounts the viewer
  with the table \<^verbatim>\<open>tickets\<close> and the interval 5000. On a pair for which the
  constructor throws, nothing is rendered and no fetch ever occurs.
\<close>

theorem C6_panel_iff_placeholder_url:
  "(createClient url key = Inr c \<longrightarrow>
      (root createClient url key = Inr ConfigurationNeeded) = (url = Some ''YOUR_SUPABASE_URL'')
      \<and> (url = Some ''YOUR_SUPABASE_URL'' \<longrightarrow>
            fst (app_session createClient url key evs) = None
            \<and> fetches (snd (app_session createClient url key evs)) = [])
      \<and> (url \<noteq> Some ''YOUR_SUPABASE_URL'' \<longrightarrow>
            root createClient url key = Inr (Viewer ''tickets'' 5000)
            \<and> app_session createClient url key evs = session ''tickets'' 5000 evs))
   \<and> (createClient url key = Inl e \<longrightarrow>
        root createClient url key = Inl e
        \<and> fst (app_session createClient url key evs) = None
        \<and> fetches (snd (app_session createClient url key evs)) = [])"
proof -
  have "timers new_host = []" "log new_host = []"
    by (simp_all add: new_host_def)
  with unmounted_stays [of new_host evs] show ?thesis
    by (simp add: root_def supabase_def App_def app_session_def myTableName_def
        refreshInterval_def fetches_def)
qed

text \<open>
  Claim C6 at a real URL, at the placeholder URL under a constructor that accepts it and
  under one that rejects it, and at a URL that is not set.
\<close>

theorem C6_witness:
  "root createClient_checked (Some ''https://db.example'') (Some ''secret'')
     = Inr (Viewer ''tickets'' 5000)
   \<and> root createClient_required (Some ''YOUR_SUPABASE_URL'') (Some ''secret'')
       = Inr ConfigurationNeeded
   \<and> fetches (snd (app_session createClient_required (Some ''YOUR_SUPABASE_URL'')
                     (Some ''secret'') [Elapse 60000])) = []
   \<and> root createClient_checked (Some ''YOUR_SUPABASE_URL'') (Some ''secret'')
       = Inl (Thrown ''Invalid supabaseUrl.'')
   \<and> fetches (snd (app_session createClient_checked None (Some ''secret'') [Elapse 60000])) = []"
  using C6_panel_iff_placeholder_url
      [of createClient_checked "Some ''https://db.example''" "Some ''secret''"
          "Client ''https://db.example'' ''secret''" "[]"]
    C6_panel_iff_placeholder_url
      [of createClient_required "Some ''YOUR_SUPABASE_URL''" "Some ''secret''"
          "Client ''YOUR_SUPABASE_URL'' ''secret''" "[Elapse 60000]"]
    C6_panel_iff_placeholder_url
      [of createClient_checked "Some ''YOUR_SUPABASE_URL''" "Some ''secret''" _ _
          "Thrown ''Invalid supabaseUrl.''"]
    C6_panel_iff_placeholder_url
      [of createClient_checked None "Some ''secret''" _ "[Elapse 60000]"
          "Thrown ''supabaseUrl is required.''"]
  by (simp add: createClient_checked_def createClient_required_def truthy_def text_of_def)

text \<open>
  Claim C6 as stated fails for a real URL with the placeholder access key: the
  constructor returns, the viewer is mounted and it fetches at once.
\<close>

theorem C6_key_placeholder_counterexample:
  "needs_configuration (Some ''https://db.example'') (Some ''YOUR_SUPABASE_ANON_KEY'')
   \<and> createClient_checked (Some ''https://db.example'') (Some ''YOUR_SUPABASE_ANON_KEY'')
       = Inr (Client ''https://db.example'' ''YOUR_SUPABASE_ANON_KEY'')
   \<and> root createClient_checked (Some ''https://db.example'') (Some ''YOUR_SUPABASE_ANON_KEY'')
       = Inr (Viewer ''tickets'' 5000)
   \<and> fetches (snd (app_session createClient_checked (Some ''https://db.example'')
                     (Some ''YOUR_SUPABASE_ANON_KEY'') []))
       = [(0, Fetch ''tickets'')]"
  by (simp add: needs_configuration_def placeholder_key_def root_def supabase_def App_def
      app_session_def session_def myTableName_def refreshInterval_def mount_positive
      new_host_def fetches_def createClient_checked_def truthy_def text_of_def)

end
